theory Spec2Isabelle
  imports Main "HOL-Library.AList" "HOL-Library.Sublist"
begin

section \<open>JavaScript values\<close>

text \<open>
  The client inspects its arguments at run time (\<^verbatim>\<open>typeof ids\<close>, \<^verbatim>\<open>ids.length\<close>,
  \<^verbatim>\<open>!text\<close>, object spread), so arguments, request bodies and parsed response bodies are
  values of one untyped universe. An object is its list of own properties in insertion
  order. Numbers are restricted to integers (result counts, sentence counts, status codes);
  functions and inherited properties are not values of the model.
\<close>

datatype jsval =
    Undefined
  | Null
  | Bool bool
  | Num int
  | Str string
  | Arr "jsval list"
  | Obj "(string \<times> jsval) list"

text \<open>
  What a call can throw or reject with: \<^verbatim>\<open>new Error(message)\<close>, the \<^verbatim>\<open>TypeError\<close> of a
  property read on \<^verbatim>\<open>null\<close>/\<^verbatim>\<open>undefined\<close> or of calling something that is not a function,
  the \<^verbatim>\<open>SyntaxError\<close> of \<^verbatim>\<open>response.json()\<close> on a body that is not JSON, and a failure of
  the transport itself.
\<close>

datatype js_error = Error string | TypeError | SyntaxError | NetworkError

type_synonym 'a result = "js_error + 'a"

fun truthy :: "jsval \<Rightarrow> bool" where
  "truthy Undefined = False"
| "truthy Null = False"
| "truthy (Bool b) = b"
| "truthy (Num n) = (n \<noteq> 0)"
| "truthy (Str s) = (s \<noteq> [])"
| "truthy (Arr xs) = True"
| "truthy (Obj kvs) = True"

fun typeof :: "jsval \<Rightarrow> string" where
  "typeof Undefined = ''undefined''"
| "typeof Null = ''object''"
| "typeof (Bool b) = ''boolean''"
| "typeof (Num n) = ''number''"
| "typeof (Str s) = ''string''"
| "typeof (Arr xs) = ''object''"
| "typeof (Obj kvs) = ''object''"

subsection \<open>Conversion to strings\<close>

definition digit :: "nat \<Rightarrow> char" where
  "digit d = ''0123456789'' ! d"

fun string_of_nat :: "nat \<Rightarrow> string" where
  "string_of_nat n =
     (if n < 10 then [digit n] else string_of_nat (n div 10) @ [digit (n mod 10)])"

declare string_of_nat.simps [simp del]

definition string_of_int :: "int \<Rightarrow> string" where
  "string_of_int i = (if i < 0 then ''-'' @ string_of_nat (nat (- i)) else string_of_nat (nat i))"

fun join :: "string \<Rightarrow> string list \<Rightarrow> string" where
  "join sep [] = []"
| "join sep [s] = s"
| "join sep (s # t # ss) = s @ sep @ join sep (t # ss)"

text \<open>
  \<^verbatim>\<open>ToString\<close>, as a template literal applies it to an interpolated value. An array is
  joined with commas, \<^verbatim>\<open>null\<close> and \<^verbatim>\<open>undefined\<close> elements giving the empty string.
\<close>

fun ToString :: "jsval \<Rightarrow> string" where
  "ToString Undefined = ''undefined''"
| "ToString Null = ''null''"
| "ToString (Bool b) = (if b then ''true'' else ''false'')"
| "ToString (Num n) = string_of_int n"
| "ToString (Str s) = s"
| "ToString (Arr xs) =
     join '','' (map (\<lambda>x. if x = Undefined \<or> x = Null then [] else ToString x) xs)"
| "ToString (Obj kvs) = ''[object Object]''"

subsection \<open>Properties\<close>

text \<open>
  The own enumerable properties of a value, as object spread and rest destructuring copy
  them: those of an object, the indexed elements of an array, the indexed characters of a
  string, none for the other primitives.
\<close>

fun own_props :: "jsval \<Rightarrow> (string \<times> jsval) list" where
  "own_props (Obj kvs) = kvs"
| "own_props (Arr xs) = zip (map string_of_nat [0..<length xs]) xs"
| "own_props (Str s) = zip (map string_of_nat [0..<length s]) (map (\<lambda>c. Str [c]) s)"
| "own_props v = []"

text \<open>
  Reading a named property \<^verbatim>\<open>v.k\<close>: a \<^verbatim>\<open>TypeError\<close> on \<^verbatim>\<open>null\<close> and \<^verbatim>\<open>undefined\<close>, the
  \<^verbatim>\<open>length\<close> of strings and arrays, an own property otherwise, and \<^verbatim>\<open>undefined\<close> when
  there is none.
\<close>

definition js_get :: "jsval \<Rightarrow> string \<Rightarrow> jsval result" where
  "js_get v k =
     (case v of
        Undefined \<Rightarrow> Inl TypeError
      | Null \<Rightarrow> Inl TypeError
      | Str s \<Rightarrow>
          if k = ''length'' then Inr (Num (int (length s)))
          else (case map_of (own_props v) k of None \<Rightarrow> Inr Undefined | Some x \<Rightarrow> Inr x)
      | Arr xs \<Rightarrow>
          if k = ''length'' then Inr (Num (int (length xs)))
          else (case map_of (own_props v) k of None \<Rightarrow> Inr Undefined | Some x \<Rightarrow> Inr x)
      | _ \<Rightarrow> (case map_of (own_props v) k of None \<Rightarrow> Inr Undefined | Some x \<Rightarrow> Inr x))"

text \<open>
  An object literal is evaluated left to right: a property definition sets its key, a
  spread \<^verbatim>\<open>...src\<close> sets every own property of the source in turn. Setting a key that
  exists keeps its position and replaces its value; a new key goes to the end. (That
  integer-like keys are enumerated before the others is not modelled; no declared option
  field is one.)
\<close>

definition spread :: "(string \<times> jsval) list \<Rightarrow> (string \<times> jsval) list \<Rightarrow> (string \<times> jsval) list" where
  "spread src tgt = fold (\<lambda>(k, v). AList.update k v) src tgt"

text \<open>
  \<^verbatim>\<open>Array.prototype.map((result) => result.id)\<close>: the first element whose \<^verbatim>\<open>id\<close> cannot
  be read aborts the whole map.
\<close>

fun map_id :: "jsval list \<Rightarrow> jsval list result" where
  "map_id [] = Inr []"
| "map_id (r # rs) =
     (case js_get r ''id'' of
        Inl e \<Rightarrow> Inl e
      | Inr i \<Rightarrow> (case map_id rs of Inl e \<Rightarrow> Inl e | Inr is \<Rightarrow> Inr (i # is)))"

section \<open>The network\<close>

text \<open>
  \<^verbatim>\<open>fetch\<close> is a parameter: a function from the request to either a rejection or a
  response. A response gives its \<^verbatim>\<open>status\<close> and what \<^verbatim>\<open>json()\<close> resolves to or rejects
  with. The field \<open>body\<close> of a request holds the value handed to \<^verbatim>\<open>JSON.stringify\<close>
  (\<open>None\<close> for \<^verbatim>\<open>undefined\<close>); the textual serialisation is not modelled. Every operation
  takes the list of requests issued so far and returns it extended by the requests it
  issued.
\<close>

record http_request =
  url :: string
  http_method :: string
  req_headers :: "(string \<times> string) list"
  body :: "jsval option"

record http_response =
  status :: nat
  json :: "jsval result"

text \<open>\<^verbatim>\<open>response.ok\<close> is, by the Fetch standard, true exactly for a status from 200 to 299.\<close>

definition ok :: "http_response \<Rightarrow> bool" where
  "ok response = (200 \<le> status response \<and> status response \<le> 299)"

type_synonym network = "http_request \<Rightarrow> http_response result"

section \<open>The client\<close>

text \<open>
  The module \<^verbatim>\<open>./exa.constants\<close> is imported by the client; its values are parameters
  here.
\<close>

record exa_constants =
  BASE_URL :: string
  CONTENT_TYPE :: string
  USER_AGENT :: string
  SEARCH :: string
  SIMILAR_SEARCH :: string
  CONTENTS :: string

record exa =
  baseURL :: string
  headers :: "(string \<times> string) list"

text \<open>
  \<^verbatim>\<open>new Headers(init)\<close>. The class comes from the \<^verbatim>\<open>cross-fetch\<close> library, like \<^verbatim>\<open>fetch\<close>. It
  takes the entries of \<^verbatim>\<open>init\<close> in order and throws a \<^verbatim>\<open>TypeError\<close> at a value that is not a
  legal HTTP header value. Which values are legal is the library's matter: the parameter
  \<open>legal\<close>. (The three header names the constructor passes are fixed literals.)
\<close>

fun new_Headers :: "(string \<Rightarrow> bool) \<Rightarrow> (string \<times> string) list \<Rightarrow> (string \<times> string) list result" where
  "new_Headers legal [] = Inr []"
| "new_Headers legal ((name, v) # init) =
     (if legal v then
        (case new_Headers legal init of Inl e \<Rightarrow> Inl e | Inr hs \<Rightarrow> Inr ((name, v) # hs))
      else Inl TypeError)"

text \<open>
  The constructor. \<open>env\<close> is \<^verbatim>\<open>process.env.EXASEARCH_API_KEY\<close>; an omitted argument is
  \<open>None\<close>. \<^verbatim>\<open>apiKey || env\<close> takes the argument when it is a non-empty string and the
  environment's value otherwise; \<^verbatim>\<open>!currentApiKey\<close> holds for \<^verbatim>\<open>undefined\<close> and for the
  empty string. The last statement builds the headers and can throw as well.
\<close>

definition Exa ::
  "exa_constants \<Rightarrow> (string \<Rightarrow> bool) \<Rightarrow> string option \<Rightarrow> string option \<Rightarrow> string option
     \<Rightarrow> exa result" where
  "Exa K legal env apiKey baseURL_arg =
     (let baseURL' = (case baseURL_arg of None \<Rightarrow> BASE_URL K | Some b \<Rightarrow> b);
          currentApiKey = (case apiKey of
                             None \<Rightarrow> env
                           | Some k \<Rightarrow> if k \<noteq> [] then Some k else env)
      in case currentApiKey of
           None \<Rightarrow> Inl (Error ''API key must be provided as an argument or as an environment variable (EXASEARCH_API_KEY)'')
         | Some k \<Rightarrow>
             if k = [] then Inl (Error ''API key must be provided as an argument or as an environment variable (EXASEARCH_API_KEY)'')
             else (case new_Headers legal [(''x-api-key'', k),
                                           (''Content-Type'', CONTENT_TYPE K),
                                           (''User-Agent'', USER_AGENT K)] of
                     Inl e \<Rightarrow> Inl e
                   | Inr hs \<Rightarrow> Inr \<lparr>baseURL = baseURL', headers = hs\<rparr>))"

text \<open>The private \<^verbatim>\<open>request\<close>: one \<^verbatim>\<open>fetch\<close>, then the status check.\<close>

definition request ::
  "exa \<Rightarrow> network \<Rightarrow> string \<Rightarrow> string \<Rightarrow> jsval \<Rightarrow> http_request list
     \<Rightarrow> jsval result \<times> http_request list" where
  "request c net endpoint meth b log =
     (let req = \<lparr>url = baseURL c @ endpoint, http_method = meth, req_headers = headers c,
                 body = (if truthy b then Some b else None)\<rparr>;
          log' = log @ [req]
      in case net req of
           Inl e \<Rightarrow> (Inl e, log')
         | Inr response \<Rightarrow>
             if \<not> ok response then
               (case json response of
                  Inl e \<Rightarrow> (Inl e, log')
                | Inr j \<Rightarrow>
                    (case js_get j ''error'' of
                       Inl e \<Rightarrow> (Inl e, log')
                     | Inr message \<Rightarrow>
                         (Inl (Error (''Request failed with status ''
                                       @ ToString (Num (int (status response)))
                                       @ ''. '' @ ToString message)), log')))
             else (json response, log'))"

definition search ::
  "exa_constants \<Rightarrow> exa \<Rightarrow> network \<Rightarrow> string \<Rightarrow> jsval \<Rightarrow> http_request list
     \<Rightarrow> jsval result \<times> http_request list" where
  "search K c net query options log =
     request c net (SEARCH K) ''POST''
       (Obj (spread (own_props options) [(''query'', Str query)])) log"

text \<open>
  The contents object both \<^verbatim>\<open>...AndContents\<close> operations build from the destructured
  \<^verbatim>\<open>text\<close> and \<^verbatim>\<open>highlights\<close>.
\<close>

definition contents_of :: "jsval \<Rightarrow> jsval \<Rightarrow> jsval" where
  "contents_of text highlights =
     (if \<not> truthy text \<and> \<not> truthy highlights then Obj [(''text'', Bool True)]
      else Obj (spread (if truthy highlights then [(''highlights'', highlights)] else [])
                 (spread (if truthy text then [(''text'', text)] else []) [])))"

text \<open>
  \<^verbatim>\<open>const { text, highlights, ...rest } = options || {}\<close>: the two reads cannot throw on a
  truthy value or on \<^verbatim>\<open>{}\<close>, but the branch is kept.
\<close>

definition destructure :: "jsval \<Rightarrow> (jsval \<times> jsval \<times> (string \<times> jsval) list) result" where
  "destructure options =
     (let src = (if truthy options then options else Obj [])
      in case js_get src ''text'' of
           Inl e \<Rightarrow> Inl e
         | Inr text \<Rightarrow>
             (case js_get src ''highlights'' of
                Inl e \<Rightarrow> Inl e
              | Inr highlights \<Rightarrow>
                  Inr (text, highlights,
                       filter (\<lambda>(k, v). k \<noteq> ''text'' \<and> k \<noteq> ''highlights'') (own_props src))))"

definition searchAndContents ::
  "exa_constants \<Rightarrow> exa \<Rightarrow> network \<Rightarrow> string \<Rightarrow> jsval \<Rightarrow> http_request list
     \<Rightarrow> jsval result \<times> http_request list" where
  "searchAndContents K c net query options log =
     (case destructure options of
        Inl e \<Rightarrow> (Inl e, log)
      | Inr (text, highlights, rest) \<Rightarrow>
          request c net (SEARCH K) ''POST''
            (Obj (spread rest
                   [(''query'', Str query), (''contents'', contents_of text highlights)])) log)"

definition findSimilar ::
  "exa_constants \<Rightarrow> exa \<Rightarrow> network \<Rightarrow> string \<Rightarrow> jsval \<Rightarrow> http_request list
     \<Rightarrow> jsval result \<times> http_request list" where
  "findSimilar K c net url' options log =
     request c net (SIMILAR_SEARCH K) ''POST''
       (Obj (spread (own_props options) [(''url'', Str url')])) log"

definition findSimilarAndContents ::
  "exa_constants \<Rightarrow> exa \<Rightarrow> network \<Rightarrow> string \<Rightarrow> jsval \<Rightarrow> http_request list
     \<Rightarrow> jsval result \<times> http_request list" where
  "findSimilarAndContents K c net url' options log =
     (case destructure options of
        Inl e \<Rightarrow> (Inl e, log)
      | Inr (text, highlights, rest) \<Rightarrow>
          request c net (SIMILAR_SEARCH K) ''POST''
            (Obj (spread rest
                   [(''url'', Str url'), (''contents'', contents_of text highlights)])) log)"

text \<open>
  The identifier list of \<^verbatim>\<open>getContents\<close>, after the emptiness check: a string is wrapped,
  a collection whose first element is a string is passed on as it is, and anything else
  is mapped to the \<^verbatim>\<open>id\<close> fields (which only an array can be).
\<close>

definition requestIds :: "jsval \<Rightarrow> jsval result" where
  "requestIds ids =
     (if typeof ids = ''string'' then Inr (Arr [ids])
      else (case js_get ids ''0'' of
              Inl e \<Rightarrow> Inl e
            | Inr first \<Rightarrow>
                if typeof first = ''string'' then Inr ids
                else (case ids of
                        Arr rs \<Rightarrow> (case map_id rs of Inl e \<Rightarrow> Inl e | Inr is \<Rightarrow> Inr (Arr is))
                      | _ \<Rightarrow> Inl TypeError)))"

definition getContents ::
  "exa_constants \<Rightarrow> exa \<Rightarrow> network \<Rightarrow> jsval \<Rightarrow> jsval \<Rightarrow> http_request list
     \<Rightarrow> jsval result \<times> http_request list" where
  "getContents K c net ids options log =
     (case js_get ids ''length'' of
        Inl e \<Rightarrow> (Inl e, log)
      | Inr len \<Rightarrow>
          if len = Num 0 then (Inl (Error ''Must provide at least one ID''), log)
          else (case requestIds ids of
                  Inl e \<Rightarrow> (Inl e, log)
                | Inr rids \<Rightarrow>
                    request c net (CONTENTS K) ''POST''
                      (Obj (spread (own_props options) [(''ids'', rids)])) log))"


section \<open>The public interface\<close>

text \<open>The five operations of the class, as one type of calls, and their dispatch.\<close>

datatype operation =
    Search string jsval
  | SearchAndContents string jsval
  | FindSimilar string jsval
  | FindSimilarAndContents string jsval
  | GetContents jsval jsval

fun invoke ::
  "exa_constants \<Rightarrow> exa \<Rightarrow> network \<Rightarrow> operation \<Rightarrow> http_request list
     \<Rightarrow> jsval result \<times> http_request list" where
  "invoke K c net (Search query options) log = search K c net query options log"
| "invoke K c net (SearchAndContents query options) log = searchAndContents K c net query options log"
| "invoke K c net (FindSimilar url' options) log = findSimilar K c net url' options log"
| "invoke K c net (FindSimilarAndContents url' options) log = findSimilarAndContents K c net url' options log"
| "invoke K c net (GetContents ids options) log = getContents K c net ids options log"

text \<open>A sequence of calls on one client; the result is the list of all requests issued.\<close>

fun invoke_all ::
  "exa_constants \<Rightarrow> exa \<Rightarrow> network \<Rightarrow> operation list \<Rightarrow> http_request list \<Rightarrow> http_request list" where
  "invoke_all K c net [] log = log"
| "invoke_all K c net (call # calls) log = invoke_all K c net calls (snd (invoke K c net call log))"

section \<open>The declared argument types\<close>

text \<open>The field names of the option types, as the type declarations list them.\<close>

definition BaseSearchOptions :: "string list" where
  "BaseSearchOptions =
     [''numResults'', ''includeDomains'', ''excludeDomains'', ''startCrawlDate'',
      ''endCrawlDate'', ''startPublishedDate'', ''endPublishedDate'', ''category'']"

definition RegularSearchOptions :: "string list" where
  "RegularSearchOptions = BaseSearchOptions @ [''useAutoprompt'', ''type'']"

definition FindSimilarOptions :: "string list" where
  "FindSimilarOptions = BaseSearchOptions @ [''excludeSourceDomain'']"

definition ContentsOptions :: "string list" where
  "ContentsOptions = [''text'', ''highlights'']"

text \<open>
  An optional argument of an object type whose fields are all optional: omitted
  (\<^verbatim>\<open>undefined\<close>), or an object whose keys are among the declared ones.
\<close>

fun has_fields :: "string list \<Rightarrow> jsval \<Rightarrow> bool" where
  "has_fields ks Undefined = True"
| "has_fields ks (Obj kvs) = (distinct (map fst kvs) \<and> list_all (\<lambda>k. k \<in> set ks) (map fst kvs))"
| "has_fields ks v = False"

text \<open>A value of type \<^verbatim>\<open>TextContentsOptions | true\<close> or \<^verbatim>\<open>HighlightsContentsOptions | true\<close>.\<close>

fun is_content_option :: "jsval \<Rightarrow> bool" where
  "is_content_option (Bool b) = b"
| "is_content_option (Obj kvs) = True"
| "is_content_option v = False"

text \<open>The \<^verbatim>\<open>id\<close> of a value of type \<^verbatim>\<open>SearchResult\<close>: an object with a string \<^verbatim>\<open>id\<close>.\<close>

fun result_id :: "jsval \<Rightarrow> string option" where
  "result_id (Obj kvs) = (case map_of kvs ''id'' of Some (Str i) \<Rightarrow> Some i | _ \<Rightarrow> None)"
| "result_id v = None"

text \<open>Sample values of the constants, for closed instances of the theorems below.\<close>

definition sample_constants :: exa_constants where
  "sample_constants =
     \<lparr>BASE_URL = ''https://api.exa.ai'', CONTENT_TYPE = ''application/json'',
      USER_AGENT = ''exa-node'', SEARCH = ''/search'', SIMILAR_SEARCH = ''/findSimilar'',
      CONTENTS = ''/contents''\<rparr>"

text \<open>
  The check of \<^verbatim>\<open>node-fetch\<close>, which \<^verbatim>\<open>cross-fetch\<close> uses under Node: a header value may hold the
  tab and the characters from \<^verbatim>\<open>0x20\<close> on, except \<^verbatim>\<open>0x7f\<close>.
\<close>

definition legal_char :: "char \<Rightarrow> bool" where
  "legal_char ch = (of_char ch = (9::nat) \<or> (32 \<le> (of_char ch :: nat) \<and> of_char ch \<noteq> (127::nat)))"

definition sample_legal :: "string \<Rightarrow> bool" where
  "sample_legal v = list_all legal_char v"

definition sample_client :: exa where
  "sample_client =
     \<lparr>baseURL = ''https://api.exa.ai'',
      headers = [(''x-api-key'', ''secret''), (''Content-Type'', ''application/json''),
                 (''User-Agent'', ''exa-node'')]\<rparr>"

text \<open>A server that answers every request with status 401 and an \<^verbatim>\<open>error\<close> message.\<close>

definition unauthorized :: network where
  "unauthorized req = Inr \<lparr>status = 401, json = Inr (Obj [(''error'', Str ''bad key'')])\<rparr>"

text \<open>A server that answers every request with status 200 and one search result.\<close>

definition one_result :: network where
  "one_result req =
     Inr \<lparr>status = 200,
          json = Inr (Obj [(''results'',
                   Arr [Obj [(''title'', Str ''T''), (''url'', Str ''u''), (''id'', Str ''1'')]])])\<rparr>"

section \<open>Object literals and requests\<close>

lemma update_fresh: "k \<notin> fst ` set al \<Longrightarrow> AList.update k v al = al @ [(k, v)]"
  by (induction al) auto

lemma spread_fresh:
  "distinct (map fst src) \<Longrightarrow> fst ` set src \<inter> fst ` set tgt = {} \<Longrightarrow> spread src tgt = tgt @ src"
proof (induction src arbitrary: tgt)
  case Nil
  then show ?case by (simp add: spread_def)
next
  case (Cons p src)
  obtain k v where p: "p = (k, v)" by (cases p)
  from Cons.prems have fresh: "k \<notin> fst ` set tgt" by (auto simp: p)
  from Cons.prems have d: "distinct (map fst src)" by simp
  from Cons.prems have "fst ` set src \<inter> fst ` set (tgt @ [(k, v)]) = {}"
    by (auto simp: p)
  from Cons.IH [OF d this] have "spread src (tgt @ [(k, v)]) = (tgt @ [(k, v)]) @ src" .
  then show ?case by (simp add: spread_def p update_fresh [OF fresh])
qed

lemma snd_request:
  "snd (request c net endpoint meth b log) =
     log @ [\<lparr>url = baseURL c @ endpoint, http_method = meth, req_headers = headers c,
             body = (if truthy b then Some b else None)\<rparr>]"
  by (simp add: request_def Let_def split: sum.splits)

lemma request_ok:
  assumes "net \<lparr>url = baseURL c @ endpoint, http_method = meth, req_headers = headers c,
                body = (if truthy b then Some b else None)\<rparr> = Inr response"
    and "ok response"
  shows "fst (request c net endpoint meth b log) = json response"
  using assms by (simp add: request_def Let_def)

lemma request_failed:
  assumes "net \<lparr>url = baseURL c @ endpoint, http_method = meth, req_headers = headers c,
                body = (if truthy b then Some b else None)\<rparr> = Inr response"
    and "\<not> ok response" and "json response = Inr j" and "js_get j ''error'' = Inr message"
  shows "fst (request c net endpoint meth b log) =
           Inl (Error (''Request failed with status '' @ string_of_nat (status response)
                        @ ''. '' @ ToString message))"
  using assms by (simp add: request_def Let_def string_of_int_def)

lemma has_fields_props:
  assumes "has_fields ks options"
  shows "distinct (map fst (own_props options))" and "fst ` set (own_props options) \<subseteq> set ks"
  using assms by (cases options; auto simp: list_all_iff)+

lemma has_fields_cases:
  assumes "has_fields ks options"
  obtains "options = Undefined" | kvs where "options = Obj kvs"
  using assms by (cases options) auto

lemma spread_options:
  assumes "has_fields ks options" and "fst ` set tgt \<inter> set ks = {}"
  shows "spread (own_props options) tgt = tgt @ own_props options"
proof (rule spread_fresh)
  show "distinct (map fst (own_props options))" using assms(1) by (rule has_fields_props)
  show "fst ` set (own_props options) \<inter> fst ` set tgt = {}"
    using has_fields_props(2) [OF assms(1)] assms(2) by blast
qed

lemma mandatory_not_option:
  "''query'' \<notin> set RegularSearchOptions" "''url'' \<notin> set FindSimilarOptions"
  "''ids'' \<notin> set ContentsOptions"
  "''contents'' \<notin> set RegularSearchOptions" "''contents'' \<notin> set FindSimilarOptions"
  "''text'' \<notin> set RegularSearchOptions" "''text'' \<notin> set FindSimilarOptions"
  "''highlights'' \<notin> set RegularSearchOptions" "''highlights'' \<notin> set FindSimilarOptions"
  "''query'' \<notin> set ContentsOptions" "''contents'' \<notin> set ContentsOptions"
  by (simp_all add: RegularSearchOptions_def FindSimilarOptions_def BaseSearchOptions_def
      ContentsOptions_def)

lemma js_get_options:
  assumes "has_fields ks options"
  shows "js_get (if truthy options then options else Obj []) k =
           Inr (case map_of (own_props options) k of None \<Rightarrow> Undefined | Some v \<Rightarrow> v)"
  using assms by (cases rule: has_fields_cases) (simp_all add: js_get_def split: option.splits)

lemma own_props_default:
  assumes "has_fields ks options"
  shows "own_props (if truthy options then options else Obj []) = own_props options"
  using assms by (cases rule: has_fields_cases) simp_all

lemma destructure_options:
  assumes "has_fields ks options"
  shows "destructure options =
           Inr (case map_of (own_props options) ''text'' of None \<Rightarrow> Undefined | Some v \<Rightarrow> v,
                case map_of (own_props options) ''highlights'' of None \<Rightarrow> Undefined | Some v \<Rightarrow> v,
                filter (\<lambda>(k, v). k \<noteq> ''text'' \<and> k \<noteq> ''highlights'') (own_props options))"
  unfolding destructure_def Let_def
  by (simp only: js_get_options [OF assms] own_props_default [OF assms] sum.case)

lemma filter_absent:
  assumes "''text'' \<notin> fst ` set kvs" and "''highlights'' \<notin> fst ` set kvs"
  shows "filter (\<lambda>(k, v). k \<noteq> ''text'' \<and> k \<noteq> ''highlights'') kvs = kvs"
  using assms by (induction kvs) force+

lemma absent_None: "fst ` set kvs \<subseteq> set ks \<Longrightarrow> k \<notin> set ks \<Longrightarrow> map_of kvs k = None"
  by (auto simp: map_of_eq_None_iff)

lemma contents_default:
  assumes "has_fields ks options" and "''text'' \<notin> set ks" and "''highlights'' \<notin> set ks"
    and "''contents'' \<notin> set ks" and "m \<notin> set ks" and "m \<noteq> ''contents''"
  shows "(case destructure options of
            Inl e \<Rightarrow> (Inl e, log)
          | Inr (text, highlights, rest) \<Rightarrow>
              request c net ep ''POST''
                (Obj (spread rest [(m, x), (''contents'', contents_of text highlights)])) log)
         = request c net ep ''POST''
             (Obj ([(m, x), (''contents'', Obj [(''text'', Bool True)])] @ own_props options)) log"
proof -
  note p = has_fields_props [OF assms(1)]
  have t: "map_of (own_props options) ''text'' = None"
    and h: "map_of (own_props options) ''highlights'' = None"
    using p(2) assms(2,3) by (simp_all add: absent_None)
  have f: "filter (\<lambda>(k, v). k \<noteq> ''text'' \<and> k \<noteq> ''highlights'') (own_props options) = own_props options"
    using p(2) assms(2,3) by (intro filter_absent) auto
  have s: "spread (own_props options) [(m, x), (''contents'', Obj [(''text'', Bool True)])]
             = [(m, x), (''contents'', Obj [(''text'', Bool True)])] @ own_props options"
    using assms(1) by (rule spread_options) (use assms in auto)
  show ?thesis
    by (simp add: destructure_options [OF assms(1)] t h f contents_of_def s)
qed

lemma content_option_truthy: "is_content_option v \<Longrightarrow> truthy v"
  by (cases v) simp_all

lemma map_of_in_keys: "k \<in> fst ` set kvs \<Longrightarrow> \<exists>v. map_of kvs k = Some v"
  by (cases "map_of kvs k") (auto simp: map_of_eq_None_iff)

lemma rest_keys:
  "fst ` set (filter (\<lambda>(k, v). k \<noteq> ''text'' \<and> k \<noteq> ''highlights'') kvs)
     = fst ` set kvs - {''text'', ''highlights''}"
  by (induction kvs) auto

lemma contents_of_text: "truthy t \<Longrightarrow> contents_of t Undefined = Obj [(''text'', t)]"
  by (simp add: contents_of_def spread_def)

lemma contents_of_highlights: "truthy h \<Longrightarrow> contents_of Undefined h = Obj [(''highlights'', h)]"
  by (simp add: contents_of_def spread_def)

lemma contents_of_both:
  "truthy t \<Longrightarrow> truthy h \<Longrightarrow> contents_of t h = Obj [(''text'', t), (''highlights'', h)]"
  by (simp add: contents_of_def spread_def)

lemma string_of_nat_0: "string_of_nat 0 = ''0''"
  by (simp add: string_of_nat.simps digit_def)

lemma js_get_first: "js_get (Arr (x # xs)) ''0'' = Inr x"
  by (simp add: js_get_def upt_conv_Cons string_of_nat_0 del: upt_Suc)

lemma result_id_Some:
  assumes "result_id r = Some i"
  shows "typeof r = ''object''" and "js_get r ''id'' = Inr (Str i)"
  using assms by (cases r; auto simp: js_get_def split: option.splits jsval.splits)+

lemma map_id_results: "map result_id rs = map Some ss \<Longrightarrow> map_id rs = Inr (map Str ss)"
proof (induction rs arbitrary: ss)
  case Nil
  then show ?case by simp
next
  case (Cons r rs)
  then obtain i ss' where ss: "ss = i # ss'" and r: "result_id r = Some i"
    and rs: "map result_id rs = map Some ss'"
    by (cases ss) auto
  from Cons.IH [OF rs] result_id_Some(2) [OF r] show ?case by (simp add: ss)
qed

lemma map_id_length: "map_id rs = Inr js \<Longrightarrow> length js = length rs"
  by (induction rs arbitrary: js) (auto split: sum.splits)

lemma requestIds_string: "requestIds (Str s) = Inr (Arr [Str s])"
  by (simp add: requestIds_def)

lemma requestIds_strings: "ss \<noteq> [] \<Longrightarrow> requestIds (Arr (map Str ss)) = Inr (Arr (map Str ss))"
  by (cases ss) (simp_all add: requestIds_def js_get_first)

lemma requestIds_results:
  assumes "rs \<noteq> []" and "map result_id rs = map Some ss"
  shows "requestIds (Arr rs) = Inr (Arr (map Str ss))"
proof -
  from assms obtain r rs' i where rs: "rs = r # rs'" and r: "result_id r = Some i"
    by (cases rs; cases ss) auto
  from result_id_Some(1) [OF r] have "typeof r \<noteq> ''string''" by simp
  then show ?thesis
    using map_id_results [OF assms(2)] by (simp add: requestIds_def rs js_get_first)
qed

lemma getContents_sends:
  assumes "has_fields ContentsOptions options" and "js_get ids ''length'' = Inr len"
    and "len \<noteq> Num 0" and "requestIds ids = Inr rids"
  shows "getContents K c net ids options log =
           request c net (CONTENTS K) ''POST'' (Obj ((''ids'', rids) # own_props options)) log"
proof -
  have "spread (own_props options) [(''ids'', rids)] = [(''ids'', rids)] @ own_props options"
    using assms(1) by (rule spread_options) (simp add: mandatory_not_option)
  with assms(2-) show ?thesis by (simp add: getContents_def)
qed

lemma requestIds_array_nonempty:
  assumes "xs \<noteq> []" and "requestIds (Arr xs) = Inr rids"
  shows "rids \<noteq> Arr []"
  using assms
  by (auto simp: requestIds_def js_get_first neq_Nil_conv split: if_splits sum.splits
      dest: map_id_length)

lemma requestIds_nonempty:
  assumes "js_get ids ''length'' = Inr len" and "len \<noteq> Num 0" and "requestIds ids = Inr rids"
  shows "rids \<noteq> Arr []"
proof (cases "\<exists>xs. ids = Arr xs")
  case True
  then obtain xs where xs: "ids = Arr xs" by blast
  with assms(1,2) have "xs \<noteq> []" by (auto simp: js_get_def)
  then show ?thesis using assms(3) unfolding xs by (rule requestIds_array_nonempty)
next
  case False
  with assms show ?thesis
    by (cases ids) (auto simp: requestIds_def js_get_def split: if_splits sum.splits option.splits)
qed

lemma invoke_cases:
  "snd (invoke K c net call log) = log \<or>
   (\<exists>endpoint b. invoke K c net call log = request c net endpoint ''POST'' b log)"
proof (cases call)
  case (Search q options)
  then show ?thesis by (auto simp: search_def)
next
  case (SearchAndContents q options)
  then show ?thesis by (auto simp: searchAndContents_def split: sum.splits)
next
  case (FindSimilar u options)
  then show ?thesis by (auto simp: findSimilar_def)
next
  case (FindSimilarAndContents u options)
  then show ?thesis by (auto simp: findSimilarAndContents_def split: sum.splits)
next
  case (GetContents ids options)
  then show ?thesis by (auto simp: getContents_def split: sum.splits)
qed

lemma invoke_headers:
  "\<exists>reqs. snd (invoke K c net call log) = log @ reqs \<and> (\<forall>r \<in> set reqs. req_headers r = headers c)"
proof -
  from invoke_cases [of K c net call log] show ?thesis
  proof
    assume "snd (invoke K c net call log) = log"
    then have "snd (invoke K c net call log) = log @ [] \<and> (\<forall>r \<in> set []. req_headers r = headers c)"
      by simp
    then show ?thesis by blast
  next
    assume "\<exists>endpoint b. invoke K c net call log = request c net endpoint ''POST'' b log"
    then obtain endpoint b where "invoke K c net call log = request c net endpoint ''POST'' b log"
      by blast
    then have "snd (invoke K c net call log) =
        log @ [\<lparr>url = baseURL c @ endpoint, http_method = ''POST'', req_headers = headers c,
             body = (if truthy b then Some b else None)\<rparr>]" by (simp add: snd_request)
    then show ?thesis by force
  qed
qed

lemma invoke_all_headers:
  "\<exists>reqs. invoke_all K c net calls log = log @ reqs \<and> (\<forall>r \<in> set reqs. req_headers r = headers c)"
proof (induction calls arbitrary: log)
  case Nil
  have "invoke_all K c net [] log = log @ [] \<and> (\<forall>r \<in> set []. req_headers r = headers c)" by simp
  then show ?case by blast
next
  case (Cons call calls)
  from invoke_headers [of K c net call log] obtain reqs where
    1: "snd (invoke K c net call log) = log @ reqs" "\<forall>r \<in> set reqs. req_headers r = headers c"
    by blast
  from Cons.IH [of "log @ reqs"] obtain reqs' where
    2: "invoke_all K c net calls (log @ reqs) = (log @ reqs) @ reqs'" "\<forall>r \<in> set reqs'. req_headers r = headers c"
    by blast
  from 1 2 have "invoke_all K c net (call # calls) log = log @ (reqs @ reqs') \<and>
     (\<forall>r \<in> set (reqs @ reqs'). req_headers r = headers c)" by auto
  then show ?case by blast
qed

section \<open>Request bodies\<close>

text \<open>
  Claim C3. For \<^verbatim>\<open>search\<close>, \<^verbatim>\<open>findSimilar\<close> and \<^verbatim>\<open>getContents\<close> with options of the
  declared type, the body of the request is the mandatory key (\<^verbatim>\<open>query\<close>, \<^verbatim>\<open>url\<close>, \<^verbatim>\<open>ids\<close>)
  followed by the caller's option fields with the caller's values, and nothing else.
  \<^verbatim>\<open>search\<close> and \<^verbatim>\<open>findSimilar\<close> always issue that request; \<^verbatim>\<open>getContents\<close> can fail
  before, so its part is about the request it issues.
\<close>

theorem body_is_key_and_options:
  "(has_fields RegularSearchOptions options \<longrightarrow>
      snd (search K c net query options log) =
        log @ [\<lparr>url = baseURL c @ SEARCH K, http_method = ''POST'', req_headers = headers c,
                body = Some (Obj ((''query'', Str query) # own_props options))\<rparr>]) \<and>
   (has_fields FindSimilarOptions options \<longrightarrow>
      snd (findSimilar K c net url' options log) =
        log @ [\<lparr>url = baseURL c @ SIMILAR_SEARCH K, http_method = ''POST'', req_headers = headers c,
                body = Some (Obj ((''url'', Str url') # own_props options))\<rparr>]) \<and>
   (has_fields ContentsOptions options \<longrightarrow>
      snd (getContents K c net ids options log) = log @ [req] \<longrightarrow>
      (\<exists>rids. requestIds ids = Inr rids \<and>
         req = \<lparr>url = baseURL c @ CONTENTS K, http_method = ''POST'', req_headers = headers c,
                body = Some (Obj ((''ids'', rids) # own_props options))\<rparr>))"
proof (intro conjI impI)
  assume "has_fields RegularSearchOptions options"
  then have "spread (own_props options) [(''query'', Str query)] = [(''query'', Str query)] @ own_props options"
    by (rule spread_options) (simp add: mandatory_not_option)
  then show "snd (search K c net query options log) =
        log @ [\<lparr>url = baseURL c @ SEARCH K, http_method = ''POST'', req_headers = headers c,
                body = Some (Obj ((''query'', Str query) # own_props options))\<rparr>]"
    by (simp add: search_def snd_request)
next
  assume "has_fields FindSimilarOptions options"
  then have "spread (own_props options) [(''url'', Str url')] = [(''url'', Str url')] @ own_props options"
    by (rule spread_options) (simp add: mandatory_not_option)
  then show "snd (findSimilar K c net url' options log) =
        log @ [\<lparr>url = baseURL c @ SIMILAR_SEARCH K, http_method = ''POST'', req_headers = headers c,
                body = Some (Obj ((''url'', Str url') # own_props options))\<rparr>]"
    by (simp add: findSimilar_def snd_request)
next
  assume t: "has_fields ContentsOptions options"
    and s: "snd (getContents K c net ids options log) = log @ [req]"
  have sp: "spread (own_props options) [(''ids'', rids)] = [(''ids'', rids)] @ own_props options" for rids
    using t by (rule spread_options) (simp add: mandatory_not_option)
  from s show "\<exists>rids. requestIds ids = Inr rids \<and>
         req = \<lparr>url = baseURL c @ CONTENTS K, http_method = ''POST'', req_headers = headers c,
                body = Some (Obj ((''ids'', rids) # own_props options))\<rparr>"
    by (auto simp: getContents_def snd_request sp split: sum.splits if_splits)
qed

theorem body_is_key_and_options_witness:
  "has_fields RegularSearchOptions (Obj [(''numResults'', Num 5), (''type'', Str ''neural'')]) \<and>
   snd (search sample_constants sample_client one_result ''q''
          (Obj [(''numResults'', Num 5), (''type'', Str ''neural'')]) []) =
     [\<lparr>url = ''https://api.exa.ai/search'', http_method = ''POST'', req_headers = headers sample_client,
       body = Some (Obj [(''query'', Str ''q''), (''numResults'', Num 5), (''type'', Str ''neural'')])\<rparr>] \<and>
   has_fields FindSimilarOptions (Obj [(''excludeSourceDomain'', Bool True)]) \<and>
   snd (findSimilar sample_constants sample_client one_result ''u''
          (Obj [(''excludeSourceDomain'', Bool True)]) []) =
     [\<lparr>url = ''https://api.exa.ai/findSimilar'', http_method = ''POST'', req_headers = headers sample_client,
       body = Some (Obj [(''url'', Str ''u''), (''excludeSourceDomain'', Bool True)])\<rparr>] \<and>
   has_fields ContentsOptions (Obj [(''text'', Bool True)]) \<and>
   snd (getContents sample_constants sample_client one_result (Str ''id1'') (Obj [(''text'', Bool True)]) []) =
     [\<lparr>url = ''https://api.exa.ai/contents'', http_method = ''POST'', req_headers = headers sample_client,
       body = Some (Obj [(''ids'', Arr [Str ''id1'']), (''text'', Bool True)])\<rparr>]"
proof -
  let ?r = "\<lparr>url = ''https://api.exa.ai/contents'', http_method = ''POST'', req_headers = headers sample_client,
       body = Some (Obj (spread [(''text'', Bool True)] [(''ids'', Arr [Str ''id1''])]))\<rparr>"
  have s: "snd (getContents sample_constants sample_client one_result (Str ''id1'') (Obj [(''text'', Bool True)]) []) = [] @ [?r]"
    by (simp add: getContents_def js_get_def requestIds_def snd_request sample_constants_def sample_client_def)
  show ?thesis
    using body_is_key_and_options [where options = "Obj [(''numResults'', Num 5), (''type'', Str ''neural'')]"
        and K = sample_constants and c = sample_client and net = one_result and query = "''q''"
        and log = "[]"]
      body_is_key_and_options [where options = "Obj [(''excludeSourceDomain'', Bool True)]" and K = sample_constants
        and c = sample_client and net = one_result and url' = "''u''" and log = "[]"]
      body_is_key_and_options [where options = "Obj [(''text'', Bool True)]" and K = sample_constants
        and c = sample_client and net = one_result and ids = "Str ''id1''" and log = "[]"
        and req = ?r] s
    by (simp add: sample_constants_def sample_client_def RegularSearchOptions_def
        FindSimilarOptions_def BaseSearchOptions_def ContentsOptions_def requestIds_def)
qed

text \<open>
  Claim C1. A call of \<^verbatim>\<open>searchAndContents\<close> or \<^verbatim>\<open>findSimilarAndContents\<close> whose options
  are omitted, or are an object of the declared option type with neither a \<^verbatim>\<open>text\<close> nor a
  \<^verbatim>\<open>highlights\<close> key, issues one request whose body is the mandatory key, then
  \<^verbatim>\<open>contents: {text: true}\<close>, then the caller's option fields; the body has no \<^verbatim>\<open>text\<close> and
  no \<^verbatim>\<open>highlights\<close> key at the top level.
\<close>

theorem contents_default_to_text:
  "(has_fields RegularSearchOptions options \<longrightarrow>
      (\<exists>b. snd (searchAndContents K c net query options log) =
              log @ [\<lparr>url = baseURL c @ SEARCH K, http_method = ''POST'', req_headers = headers c,
                      body = Some (Obj b)\<rparr>] \<and>
            b = [(''query'', Str query), (''contents'', Obj [(''text'', Bool True)])] @ own_props options \<and>
            map_of b ''contents'' = Some (Obj [(''text'', Bool True)]) \<and>
            ''text'' \<notin> fst ` set b \<and> ''highlights'' \<notin> fst ` set b)) \<and>
   (has_fields FindSimilarOptions options \<longrightarrow>
      (\<exists>b. snd (findSimilarAndContents K c net url' options log) =
              log @ [\<lparr>url = baseURL c @ SIMILAR_SEARCH K, http_method = ''POST'', req_headers = headers c,
                      body = Some (Obj b)\<rparr>] \<and>
            b = [(''url'', Str url'), (''contents'', Obj [(''text'', Bool True)])] @ own_props options \<and>
            map_of b ''contents'' = Some (Obj [(''text'', Bool True)]) \<and>
            ''text'' \<notin> fst ` set b \<and> ''highlights'' \<notin> fst ` set b))"
proof (intro conjI impI)
  assume a: "has_fields RegularSearchOptions options"
  have "searchAndContents K c net query options log =
          request c net (SEARCH K) ''POST''
            (Obj ([(''query'', Str query), (''contents'', Obj [(''text'', Bool True)])] @ own_props options)) log"
    unfolding searchAndContents_def
    by (rule contents_default [OF a]) (simp_all add: mandatory_not_option)
  moreover have "''text'' \<notin> fst ` set (own_props options)" "''highlights'' \<notin> fst ` set (own_props options)"
    using has_fields_props(2) [OF a] mandatory_not_option by blast+
  ultimately show "\<exists>b. snd (searchAndContents K c net query options log) =
              log @ [\<lparr>url = baseURL c @ SEARCH K, http_method = ''POST'', req_headers = headers c,
                      body = Some (Obj b)\<rparr>] \<and>
            b = [(''query'', Str query), (''contents'', Obj [(''text'', Bool True)])] @ own_props options \<and>
            map_of b ''contents'' = Some (Obj [(''text'', Bool True)]) \<and>
            ''text'' \<notin> fst ` set b \<and> ''highlights'' \<notin> fst ` set b"
    by (simp add: snd_request)
next
  assume a: "has_fields FindSimilarOptions options"
  have "findSimilarAndContents K c net url' options log =
          request c net (SIMILAR_SEARCH K) ''POST''
            (Obj ([(''url'', Str url'), (''contents'', Obj [(''text'', Bool True)])] @ own_props options)) log"
    unfolding findSimilarAndContents_def
    by (rule contents_default [OF a]) (simp_all add: mandatory_not_option)
  moreover have "''text'' \<notin> fst ` set (own_props options)" "''highlights'' \<notin> fst ` set (own_props options)"
    using has_fields_props(2) [OF a] mandatory_not_option by blast+
  ultimately show "\<exists>b. snd (findSimilarAndContents K c net url' options log) =
              log @ [\<lparr>url = baseURL c @ SIMILAR_SEARCH K, http_method = ''POST'', req_headers = headers c,
                      body = Some (Obj b)\<rparr>] \<and>
            b = [(''url'', Str url'), (''contents'', Obj [(''text'', Bool True)])] @ own_props options \<and>
            map_of b ''contents'' = Some (Obj [(''text'', Bool True)]) \<and>
            ''text'' \<notin> fst ` set b \<and> ''highlights'' \<notin> fst ` set b"
    by (simp add: snd_request)
qed

theorem contents_default_to_text_witness:
  "has_fields RegularSearchOptions Undefined \<and>
   snd (searchAndContents sample_constants sample_client one_result ''q'' Undefined []) =
     [\<lparr>url = ''https://api.exa.ai/search'', http_method = ''POST'', req_headers = headers sample_client,
       body = Some (Obj [(''query'', Str ''q''), (''contents'', Obj [(''text'', Bool True)])])\<rparr>] \<and>
   has_fields FindSimilarOptions (Obj [(''numResults'', Num 5)]) \<and>
   snd (findSimilarAndContents sample_constants sample_client one_result ''u'' (Obj [(''numResults'', Num 5)]) []) =
     [\<lparr>url = ''https://api.exa.ai/findSimilar'', http_method = ''POST'', req_headers = headers sample_client,
       body = Some (Obj [(''url'', Str ''u''), (''contents'', Obj [(''text'', Bool True)]),
                         (''numResults'', Num 5)])\<rparr>]"
  using contents_default_to_text [where options = Undefined and K = sample_constants and c = sample_client
        and net = one_result and query = "''q''" and log = "[]"]
    contents_default_to_text [where options = "Obj [(''numResults'', Num 5)]" and K = sample_constants
        and c = sample_client and net = one_result and url' = "''u''" and log = "[]"]
  by (simp add: sample_constants_def sample_client_def RegularSearchOptions_def
      FindSimilarOptions_def BaseSearchOptions_def)

text \<open>
  Claim C4. A call of \<^verbatim>\<open>searchAndContents\<close> whose options are of the declared type and
  supply \<^verbatim>\<open>text\<close> or \<^verbatim>\<open>highlights\<close> or both, each with a value of its declared type
  (\<^verbatim>\<open>true\<close> or an options object), issues one request whose \<^verbatim>\<open>contents\<close> holds exactly the
  supplied content keys with the supplied values, \<^verbatim>\<open>text\<close> first; the top level of the body
  is \<^verbatim>\<open>query\<close>, \<^verbatim>\<open>contents\<close> and the other option fields, without \<^verbatim>\<open>text\<close> and
  \<^verbatim>\<open>highlights\<close>. The instance below it is the call
  \<^verbatim>\<open>searchAndContents(query, {text: true, highlights: {numSentences: 1}})\<close>.
\<close>

theorem contents_nest_supplied:
  assumes typed: "has_fields (RegularSearchOptions @ ContentsOptions) options"
    and tx: "\<forall>v. map_of (own_props options) ''text'' = Some v \<longrightarrow> is_content_option v"
    and hl: "\<forall>v. map_of (own_props options) ''highlights'' = Some v \<longrightarrow> is_content_option v"
    and supplied: "''text'' \<in> fst ` set (own_props options) \<or> ''highlights'' \<in> fst ` set (own_props options)"
  shows "\<exists>b cs. snd (searchAndContents K c net query options log) =
                   log @ [\<lparr>url = baseURL c @ SEARCH K, http_method = ''POST'', req_headers = headers c,
                           body = Some (Obj b)\<rparr>] \<and>
     b = [(''query'', Str query), (''contents'', Obj cs)]
           @ filter (\<lambda>(k, v). k \<noteq> ''text'' \<and> k \<noteq> ''highlights'') (own_props options) \<and>
     cs = (case map_of (own_props options) ''text'' of None \<Rightarrow> [] | Some v \<Rightarrow> [(''text'', v)])
            @ (case map_of (own_props options) ''highlights'' of None \<Rightarrow> [] | Some v \<Rightarrow> [(''highlights'', v)]) \<and>
     ''text'' \<notin> fst ` set b \<and> ''highlights'' \<notin> fst ` set b"
proof -
  define kvs where "kvs = own_props options"
  define rest where "rest = filter (\<lambda>(k, v). k \<noteq> ''text'' \<and> k \<noteq> ''highlights'') kvs"
  define cs where "cs = (case map_of kvs ''text'' of None \<Rightarrow> [] | Some v \<Rightarrow> [(''text'', v)])
            @ (case map_of kvs ''highlights'' of None \<Rightarrow> [] | Some v \<Rightarrow> [(''highlights'', v)])"
  note p = has_fields_props [OF typed, folded kvs_def]
  have keys: "fst ` set rest = fst ` set kvs - {''text'', ''highlights''}"
    unfolding rest_def by (rule rest_keys)
  have d: "distinct (map fst rest)"
    unfolding rest_def using p(1) by (rule distinct_map_filter)
  have "''query'' \<notin> set (RegularSearchOptions @ ContentsOptions)"
    and "''contents'' \<notin> set (RegularSearchOptions @ ContentsOptions)"
    by (simp_all add: mandatory_not_option)
  with p(2) have "fst ` set rest \<inter> fst ` set [(''query'', Str query), (''contents'', Obj cs)] = {}"
    unfolding keys by auto
  with d have s: "spread rest [(''query'', Str query), (''contents'', Obj cs)]
                    = [(''query'', Str query), (''contents'', Obj cs)] @ rest"
    by (rule spread_fresh)
  have co: "contents_of (case map_of kvs ''text'' of None \<Rightarrow> Undefined | Some v \<Rightarrow> v)
                       (case map_of kvs ''highlights'' of None \<Rightarrow> Undefined | Some v \<Rightarrow> v) = Obj cs"
  proof (cases "map_of kvs ''text''")
    case None
    with supplied obtain h where h: "map_of kvs ''highlights'' = Some h"
      unfolding kvs_def [symmetric] using map_of_in_keys [of _ kvs]
      by (auto simp: map_of_eq_None_iff)
    with hl have "truthy h" by (simp add: kvs_def content_option_truthy)
    with None h show ?thesis by (simp add: cs_def contents_of_highlights)
  next
    case (Some t)
    with tx have t: "truthy t" by (simp add: kvs_def content_option_truthy)
    show ?thesis
    proof (cases "map_of kvs ''highlights''")
      case None
      with Some t show ?thesis by (simp add: cs_def contents_of_text)
    next
      case h: (Some h)
      with hl have "truthy h" by (simp add: kvs_def content_option_truthy)
      with Some h t show ?thesis by (simp add: cs_def contents_of_both)
    qed
  qed
  have "searchAndContents K c net query options log =
          request c net (SEARCH K) ''POST'' (Obj ([(''query'', Str query), (''contents'', Obj cs)] @ rest)) log"
    by (simp add: searchAndContents_def destructure_options [OF typed] co [unfolded kvs_def]
        s rest_def [unfolded kvs_def, symmetric])
  moreover have "''text'' \<notin> fst ` set rest" "''highlights'' \<notin> fst ` set rest"
    unfolding keys by simp_all
  ultimately show ?thesis
    unfolding cs_def rest_def kvs_def by (simp add: snd_request)
qed

theorem contents_nest_supplied_witness:
  "has_fields (RegularSearchOptions @ ContentsOptions)
     (Obj [(''text'', Bool True), (''highlights'', Obj [(''numSentences'', Num 1)])]) \<and>
   snd (searchAndContents sample_constants sample_client one_result ''q''
          (Obj [(''text'', Bool True), (''highlights'', Obj [(''numSentences'', Num 1)])]) []) =
     [\<lparr>url = ''https://api.exa.ai/search'', http_method = ''POST'', req_headers = headers sample_client,
       body = Some (Obj [(''query'', Str ''q''),
                         (''contents'', Obj [(''text'', Bool True),
                                             (''highlights'', Obj [(''numSentences'', Num 1)])])])\<rparr>]"
  using contents_nest_supplied [where options = "Obj [(''text'', Bool True), (''highlights'', Obj [(''numSentences'', Num 1)])]"
      and K = sample_constants and c = sample_client and net = one_result and query = "''q''"
      and log = "[]"]
  by (simp add: sample_constants_def sample_client_def RegularSearchOptions_def
      BaseSearchOptions_def ContentsOptions_def)

text \<open>
  Claim C2. With options of type \<^verbatim>\<open>ContentsOptions\<close>, \<^verbatim>\<open>getContents\<close> sends for a non-empty
  string \<open>s\<close> the list \<^verbatim>\<open>[s]\<close>, for a non-empty list of strings that list unchanged, and
  for a non-empty list of search results (objects with a string \<^verbatim>\<open>id\<close>) the list of their
  \<^verbatim>\<open>id\<close>s in the same order: the same flat list of strings in the field \<^verbatim>\<open>ids\<close> of the
  request body.
\<close>

theorem getContents_normalizes_ids:
  assumes "has_fields ContentsOptions options"
  shows "(s \<noteq> [] \<longrightarrow>
            snd (getContents K c net (Str s) options log) =
              log @ [\<lparr>url = baseURL c @ CONTENTS K, http_method = ''POST'', req_headers = headers c,
                      body = Some (Obj ((''ids'', Arr [Str s]) # own_props options))\<rparr>]) \<and>
         (ss \<noteq> [] \<longrightarrow>
            snd (getContents K c net (Arr (map Str ss)) options log) =
              log @ [\<lparr>url = baseURL c @ CONTENTS K, http_method = ''POST'', req_headers = headers c,
                      body = Some (Obj ((''ids'', Arr (map Str ss)) # own_props options))\<rparr>]) \<and>
         (rs \<noteq> [] \<longrightarrow> map result_id rs = map Some ss \<longrightarrow>
            snd (getContents K c net (Arr rs) options log) =
              log @ [\<lparr>url = baseURL c @ CONTENTS K, http_method = ''POST'', req_headers = headers c,
                      body = Some (Obj ((''ids'', Arr (map Str ss)) # own_props options))\<rparr>])"
proof (intro conjI impI)
  assume "s \<noteq> []"
  then have "getContents K c net (Str s) options log =
      request c net (CONTENTS K) ''POST'' (Obj ((''ids'', Arr [Str s]) # own_props options)) log"
    by (intro getContents_sends [OF assms, where len = "Num (int (length s))"])
       (simp_all add: js_get_def requestIds_string)
  then show "snd (getContents K c net (Str s) options log) =
              log @ [\<lparr>url = baseURL c @ CONTENTS K, http_method = ''POST'', req_headers = headers c,
                      body = Some (Obj ((''ids'', Arr [Str s]) # own_props options))\<rparr>]"
    by (simp add: snd_request)
next
  assume "ss \<noteq> []"
  then have "getContents K c net (Arr (map Str ss)) options log =
      request c net (CONTENTS K) ''POST'' (Obj ((''ids'', Arr (map Str ss)) # own_props options)) log"
    by (intro getContents_sends [OF assms, where len = "Num (int (length ss))"])
       (simp_all add: js_get_def requestIds_strings)
  then show "snd (getContents K c net (Arr (map Str ss)) options log) =
              log @ [\<lparr>url = baseURL c @ CONTENTS K, http_method = ''POST'', req_headers = headers c,
                      body = Some (Obj ((''ids'', Arr (map Str ss)) # own_props options))\<rparr>]"
    by (simp add: snd_request)
next
  assume "rs \<noteq> []" and "map result_id rs = map Some ss"
  then have "getContents K c net (Arr rs) options log =
      request c net (CONTENTS K) ''POST'' (Obj ((''ids'', Arr (map Str ss)) # own_props options)) log"
    by (intro getContents_sends [OF assms, where len = "Num (int (length rs))"])
       (simp_all add: js_get_def requestIds_results)
  then show "snd (getContents K c net (Arr rs) options log) =
              log @ [\<lparr>url = baseURL c @ CONTENTS K, http_method = ''POST'', req_headers = headers c,
                      body = Some (Obj ((''ids'', Arr (map Str ss)) # own_props options))\<rparr>]"
    by (simp add: snd_request)
qed

theorem getContents_normalizes_ids_witness:
  "has_fields ContentsOptions Undefined \<and>
   snd (getContents sample_constants sample_client one_result (Str ''id1'') Undefined []) =
     [\<lparr>url = ''https://api.exa.ai/contents'', http_method = ''POST'', req_headers = headers sample_client,
       body = Some (Obj [(''ids'', Arr [Str ''id1''])])\<rparr>] \<and>
   snd (getContents sample_constants sample_client one_result (Arr [Str ''id1'', Str ''id2'']) Undefined []) =
     [\<lparr>url = ''https://api.exa.ai/contents'', http_method = ''POST'', req_headers = headers sample_client,
       body = Some (Obj [(''ids'', Arr [Str ''id1'', Str ''id2''])])\<rparr>] \<and>
   snd (getContents sample_constants sample_client one_result
          (Arr [Obj [(''title'', Null), (''url'', Str ''u1''), (''id'', Str ''id1'')],
                Obj [(''title'', Str ''T''), (''url'', Str ''u2''), (''id'', Str ''id2'')]]) Undefined []) =
     [\<lparr>url = ''https://api.exa.ai/contents'', http_method = ''POST'', req_headers = headers sample_client,
       body = Some (Obj [(''ids'', Arr [Str ''id1'', Str ''id2''])])\<rparr>]"
  using getContents_normalizes_ids [where options = Undefined and s = "''id1''" and K = sample_constants
      and c = sample_client and net = one_result and log = "[]" and ss = "[''id1'', ''id2'']"
      and rs = "[Obj [(''title'', Null), (''url'', Str ''u1''), (''id'', Str ''id1'')],
                 Obj [(''title'', Str ''T''), (''url'', Str ''u2''), (''id'', Str ''id2'')]]"]
  by (simp add: sample_constants_def sample_client_def)

section \<open>Errors and responses\<close>

text \<open>
  Claim C5. \<^verbatim>\<open>getContents([])\<close> throws \<^verbatim>\<open>Error("Must provide at least one ID")\<close> and the list
  of issued requests is unchanged: no request is made.
\<close>

theorem getContents_empty_list: "getContents K c net (Arr []) options log = (Inl (Error ''Must provide at least one ID''), log)"
  by (simp add: getContents_def js_get_def)

text \<open>
  Claim C9. \<^verbatim>\<open>getContents("")\<close> throws \<^verbatim>\<open>Error("Must provide at least one ID")\<close> without a
  request, as the empty list does: \<^verbatim>\<open>"".length === 0\<close>. So whenever \<^verbatim>\<open>getContents\<close> issues a
  request, its input was neither the empty string nor the empty list, and the identifier
  list computed from the input is not empty.
\<close>

theorem getContents_empty_string:
  "getContents K c net (Str []) options log = (Inl (Error ''Must provide at least one ID''), log) \<and>
   (snd (getContents K c net ids options log) \<noteq> log \<longrightarrow>
      ids \<noteq> Str [] \<and> ids \<noteq> Arr [] \<and> (\<exists>rids. requestIds ids = Inr rids \<and> rids \<noteq> Arr []))"
proof (intro conjI impI)
  show e: "getContents K c net (Str []) options log = (Inl (Error ''Must provide at least one ID''), log)" for K c net options log
    by (simp add: getContents_def js_get_def)
  have e': "getContents K c net (Arr []) options log = (Inl (Error ''Must provide at least one ID''), log)"
    by (simp add: getContents_def js_get_def)
  assume a: "snd (getContents K c net ids options log) \<noteq> log"
  with e show "ids \<noteq> Str []" by auto
  from a e' show "ids \<noteq> Arr []" by auto
  from a obtain len rids where "js_get ids ''length'' = Inr len" "len \<noteq> Num 0" "requestIds ids = Inr rids"
    by (auto simp: getContents_def split: sum.splits if_splits)
  then show "\<exists>rids. requestIds ids = Inr rids \<and> rids \<noteq> Arr []"
    using requestIds_nonempty by blast
qed

theorem getContents_empty_string_witness:
  "snd (getContents sample_constants sample_client one_result (Str ''id1'') Undefined []) \<noteq> [] \<and>
   Str ''id1'' \<noteq> Str [] \<and> requestIds (Str ''id1'') = Inr (Arr [Str ''id1''])"
  using getContents_empty_string [where K = sample_constants and c = sample_client and net = one_result
      and options = Undefined and log = "[]" and ids = "Str ''id1''"]
  by (simp add: getContents_def js_get_def requestIds_def snd_request)

text \<open>
  Claim C6 says that construction succeeds when either source of the credential is present.
  With the empty string as argument and the environment variable unset the argument is
  present, and the constructor throws.
\<close>

theorem constructor_empty_key_counterexample:
  "Some [] \<noteq> (None :: string option) \<and>
   Exa sample_constants sample_legal None (Some []) None =
     Inl (Error ''API key must be provided as an argument or as an environment variable (EXASEARCH_API_KEY)'')"
  by (simp add: Exa_def)

text \<open>
  Claim C6, amended. With no \<^verbatim>\<open>apiKey\<close> argument and the environment variable unset the
  constructor throws the configuration error; it has no access to the network, so no request
  precedes the error. Let the argument be a non-empty string \<open>k\<close>, or the argument be omitted
  or empty and the environment variable be a non-empty string \<open>k\<close>. When \<open>k\<close> and the two
  constants are legal header values, construction succeeds with the headers
  \<^verbatim>\<open>x-api-key: k\<close>, the fixed content type and the fixed user agent, and every request issued
  by any sequence of calls on that client carries exactly these headers. When one of the
  three is not a legal header value, the constructor throws the \<^verbatim>\<open>TypeError\<close> of
  \<^verbatim>\<open>new Headers\<close>.
\<close>

theorem constructor_credential:
  "Exa K legal None None baseURL_arg =
     Inl (Error ''API key must be provided as an argument or as an environment variable (EXASEARCH_API_KEY)'') \<and>
   (k \<noteq> [] \<longrightarrow> apiKey = Some k \<or> ((apiKey = None \<or> apiKey = Some []) \<and> env = Some k) \<longrightarrow>
      (legal k \<and> legal (CONTENT_TYPE K) \<and> legal (USER_AGENT K) \<longrightarrow>
         (\<exists>c. Exa K legal env apiKey baseURL_arg = Inr c \<and>
              baseURL c = (case baseURL_arg of None \<Rightarrow> BASE_URL K | Some b \<Rightarrow> b) \<and>
              headers c = [(''x-api-key'', k), (''Content-Type'', CONTENT_TYPE K),
                           (''User-Agent'', USER_AGENT K)] \<and>
              (\<exists>reqs. invoke_all K c net calls log = log @ reqs \<and>
                      (\<forall>r \<in> set reqs.
                         req_headers r = [(''x-api-key'', k), (''Content-Type'', CONTENT_TYPE K),
                                          (''User-Agent'', USER_AGENT K)])))) \<and>
      (\<not> (legal k \<and> legal (CONTENT_TYPE K) \<and> legal (USER_AGENT K)) \<longrightarrow>
         Exa K legal env apiKey baseURL_arg = Inl TypeError))"
proof (intro conjI impI)
  show "Exa K legal None None baseURL_arg =
     Inl (Error ''API key must be provided as an argument or as an environment variable (EXASEARCH_API_KEY)'')"
    by (simp add: Exa_def)
next
  let ?c = "\<lparr>baseURL = (case baseURL_arg of None \<Rightarrow> BASE_URL K | Some b \<Rightarrow> b),
             headers = [(''x-api-key'', k), (''Content-Type'', CONTENT_TYPE K),
                        (''User-Agent'', USER_AGENT K)]\<rparr>"
  assume "k \<noteq> []" and "apiKey = Some k \<or> ((apiKey = None \<or> apiKey = Some []) \<and> env = Some k)"
    and "legal k \<and> legal (CONTENT_TYPE K) \<and> legal (USER_AGENT K)"
  then have "Exa K legal env apiKey baseURL_arg = Inr ?c"
    by (auto simp: Exa_def)
  moreover from invoke_all_headers [of K ?c net calls log]
  have "\<exists>reqs. invoke_all K ?c net calls log = log @ reqs \<and>
          (\<forall>r \<in> set reqs.
             req_headers r = [(''x-api-key'', k), (''Content-Type'', CONTENT_TYPE K),
                              (''User-Agent'', USER_AGENT K)])"
    by simp
  ultimately show "\<exists>c. Exa K legal env apiKey baseURL_arg = Inr c \<and>
           baseURL c = (case baseURL_arg of None \<Rightarrow> BASE_URL K | Some b \<Rightarrow> b) \<and>
           headers c = [(''x-api-key'', k), (''Content-Type'', CONTENT_TYPE K),
                        (''User-Agent'', USER_AGENT K)] \<and>
           (\<exists>reqs. invoke_all K c net calls log = log @ reqs \<and>
                   (\<forall>r \<in> set reqs.
                      req_headers r = [(''x-api-key'', k), (''Content-Type'', CONTENT_TYPE K),
                                       (''User-Agent'', USER_AGENT K)]))"
    by simp
next
  assume "k \<noteq> []" and "apiKey = Some k \<or> ((apiKey = None \<or> apiKey = Some []) \<and> env = Some k)"
    and "\<not> (legal k \<and> legal (CONTENT_TYPE K) \<and> legal (USER_AGENT K))"
  then show "Exa K legal env apiKey baseURL_arg = Inl TypeError"
    by (auto simp: Exa_def)
qed

theorem constructor_credential_witness:
  "Exa sample_constants sample_legal None (Some ''secret'') None = Inr sample_client \<and>
   Exa sample_constants sample_legal (Some ''secret'') None None = Inr sample_client \<and>
   (\<exists>reqs. invoke_all sample_constants sample_client unauthorized
              [Search ''q'' Undefined, GetContents (Str ''id1'') Undefined] [] = reqs \<and>
            (\<forall>r \<in> set reqs. req_headers r = headers sample_client)) \<and>
   Exa sample_constants sample_legal None (Some [CHR ''b'', CHR 0x0A, CHR ''k'']) None = Inl TypeError"
proof -
  have l: "sample_legal ''secret''" "sample_legal (CONTENT_TYPE sample_constants)"
    "sample_legal (USER_AGENT sample_constants)"
    by (simp_all add: sample_legal_def legal_char_def sample_constants_def)
  have n: "\<not> sample_legal [CHR ''b'', CHR 0x0A, CHR ''k'']"
    by (simp add: sample_legal_def legal_char_def)
  note t = constructor_credential [where K = sample_constants and legal = sample_legal
      and baseURL_arg = None and net = unauthorized
      and calls = "[Search ''q'' Undefined, GetContents (Str ''id1'') Undefined]" and log = "[]"]
  from t [where k = "''secret''" and apiKey = "Some ''secret''" and env = None] l
  obtain c where c: "Exa sample_constants sample_legal None (Some ''secret'') None = Inr c"
    and b: "baseURL c = BASE_URL sample_constants"
    and h: "headers c = [(''x-api-key'', ''secret''), (''Content-Type'', CONTENT_TYPE sample_constants),
                        (''User-Agent'', USER_AGENT sample_constants)]"
    and r: "\<exists>reqs. invoke_all sample_constants c unauthorized
              [Search ''q'' Undefined, GetContents (Str ''id1'') Undefined] [] = [] @ reqs \<and>
            (\<forall>r \<in> set reqs. req_headers r = [(''x-api-key'', ''secret''),
                (''Content-Type'', CONTENT_TYPE sample_constants),
                (''User-Agent'', USER_AGENT sample_constants)])"
    by auto
  from b h have e: "c = sample_client"
    by (cases c) (simp add: sample_client_def sample_constants_def)
  from t [where k = "''secret''" and apiKey = None and env = "Some ''secret''"] l
  obtain c' where c': "Exa sample_constants sample_legal (Some ''secret'') None None = Inr c'"
    and b': "baseURL c' = BASE_URL sample_constants"
    and h': "headers c' = [(''x-api-key'', ''secret''), (''Content-Type'', CONTENT_TYPE sample_constants),
                        (''User-Agent'', USER_AGENT sample_constants)]"
    by auto
  from b' h' have e': "c' = sample_client"
    by (cases c') (simp add: sample_client_def sample_constants_def)
  from t [where k = "[CHR ''b'', CHR 0x0A, CHR ''k'']"
      and apiKey = "Some [CHR ''b'', CHR 0x0A, CHR ''k'']" and env = None] n
  have x: "Exa sample_constants sample_legal None (Some [CHR ''b'', CHR 0x0A, CHR ''k'']) None = Inl TypeError"
    by simp
  from r h have "\<exists>reqs. invoke_all sample_constants c unauthorized
              [Search ''q'' Undefined, GetContents (Str ''id1'') Undefined] [] = reqs \<and>
            (\<forall>r \<in> set reqs. req_headers r = headers c)"
    by simp
  with c c' x show ?thesis unfolding e e' by simp
qed

text \<open>
  Claim C10. The empty string as \<^verbatim>\<open>apiKey\<close> gives the same result as an omitted argument,
  whatever the environment variable holds. The credential is then the environment's value:
  when that is a non-empty string \<open>e\<close> (and \<open>e\<close> and the two constants are legal header
  values) the client is constructed with the header \<^verbatim>\<open>x-api-key: e\<close>; with the variable unset
  the constructor throws the configuration error although an argument was supplied.
\<close>

theorem constructor_empty_apiKey:
  "Exa K legal env (Some []) baseURL_arg = Exa K legal env None baseURL_arg \<and>
   Exa K legal None (Some []) baseURL_arg =
     Inl (Error ''API key must be provided as an argument or as an environment variable (EXASEARCH_API_KEY)'') \<and>
   (e \<noteq> [] \<longrightarrow> legal e \<longrightarrow> legal (CONTENT_TYPE K) \<longrightarrow> legal (USER_AGENT K) \<longrightarrow>
      Exa K legal (Some e) (Some []) baseURL_arg =
        Inr \<lparr>baseURL = (case baseURL_arg of None \<Rightarrow> BASE_URL K | Some b \<Rightarrow> b),
             headers = [(''x-api-key'', e), (''Content-Type'', CONTENT_TYPE K),
                        (''User-Agent'', USER_AGENT K)]\<rparr>)"
  by (simp add: Exa_def)

theorem constructor_empty_apiKey_witness:
  "Exa sample_constants sample_legal (Some ''secret'') (Some []) None = Inr sample_client \<and>
   Exa sample_constants sample_legal (Some ''secret'') None None = Inr sample_client \<and>
   Exa sample_constants sample_legal None (Some []) None =
     Inl (Error ''API key must be provided as an argument or as an environment variable (EXASEARCH_API_KEY)'')"
proof -
  have l: "sample_legal ''secret''" "sample_legal (CONTENT_TYPE sample_constants)"
    "sample_legal (USER_AGENT sample_constants)"
    by (simp_all add: sample_legal_def legal_char_def sample_constants_def)
  note t = constructor_empty_apiKey [where K = sample_constants and legal = sample_legal
      and env = "Some ''secret''" and e = "''secret''" and baseURL_arg = None]
  from t have same: "Exa sample_constants sample_legal (Some ''secret'') (Some []) None =
      Exa sample_constants sample_legal (Some ''secret'') None None"
    by (rule conjunct1)
  from t have "''secret'' \<noteq> [] \<longrightarrow> sample_legal ''secret'' \<longrightarrow>
      sample_legal (CONTENT_TYPE sample_constants) \<longrightarrow> sample_legal (USER_AGENT sample_constants) \<longrightarrow>
      Exa sample_constants sample_legal (Some ''secret'') (Some []) None =
        Inr \<lparr>baseURL = (case None of None \<Rightarrow> BASE_URL sample_constants | Some b \<Rightarrow> b),
             headers = [(''x-api-key'', ''secret''), (''Content-Type'', CONTENT_TYPE sample_constants),
                        (''User-Agent'', USER_AGENT sample_constants)]\<rparr>"
    by (rule conjunct2 [THEN conjunct2])
  with l have 1: "Exa sample_constants sample_legal (Some ''secret'') (Some []) None = Inr sample_client"
    by (simp add: sample_client_def sample_constants_def)
  from 1 same have 2: "Exa sample_constants sample_legal (Some ''secret'') None None = Inr sample_client"
    by simp
  from constructor_empty_apiKey [where K = sample_constants and legal = sample_legal
      and env = None and baseURL_arg = None]
  have 3: "Exa sample_constants sample_legal None (Some []) None =
     Inl (Error ''API key must be provided as an argument or as an environment variable (EXASEARCH_API_KEY)'')"
    by (rule conjunct2 [THEN conjunct1])
  from 1 2 3 show ?thesis by simp
qed

text \<open>
  Claim C7. For every operation: when the response to the request it issued has a status
  outside 200..299 and its body parses as JSON with a string in the field \<^verbatim>\<open>error\<close>, the call
  fails with \<^verbatim>\<open>Error("Request failed with status <status>. <error>")\<close>, a message that contains
  the decimal status code and the error string. The instance below it is status 401 with
  the body \<^verbatim>\<open>{"error":"bad key"}\<close>.
\<close>

theorem request_error_message:
  assumes "snd (invoke K c net call log) = log @ [req]" and "net req = Inr response"
    and "\<not> ok response" and "json response = Inr j" and "js_get j ''error'' = Inr (Str message)"
  shows "\<exists>msg. fst (invoke K c net call log) = Inl (Error msg) \<and>
           msg = ''Request failed with status '' @ string_of_nat (status response) @ ''. '' @ message \<and>
           sublist (string_of_nat (status response)) msg \<and> sublist message msg"
proof -
  from invoke_cases [of K c net call log] assms(1)
  obtain endpoint b where i: "invoke K c net call log = request c net endpoint ''POST'' b log"
    by auto
  with assms(1) have "req = \<lparr>url = baseURL c @ endpoint, http_method = ''POST'', req_headers = headers c,
             body = (if truthy b then Some b else None)\<rparr>"
    by (simp add: snd_request)
  with assms(2) have "net \<lparr>url = baseURL c @ endpoint, http_method = ''POST'', req_headers = headers c,
             body = (if truthy b then Some b else None)\<rparr> = Inr response" by simp
  then have "fst (request c net endpoint ''POST'' b log) =
          Inl (Error (''Request failed with status '' @ string_of_nat (status response) @ ''. ''
                       @ ToString (Str message)))"
    using assms(3,4,5) by (rule request_failed)
  then have "fst (invoke K c net call log) =
          Inl (Error (''Request failed with status '' @ string_of_nat (status response) @ ''. '' @ message))"
    by (simp add: i)
  moreover have "sublist (string_of_nat (status response))
     (''Request failed with status '' @ string_of_nat (status response) @ ''. '' @ message)"
    by (rule sublist_appendI)
  moreover have "sublist message
     ((''Request failed with status '' @ string_of_nat (status response) @ ''. '') @ message)"
    by (rule sublist_append_leftI)
  ultimately show ?thesis by simp
qed

theorem request_error_message_witness:
  "\<not> ok \<lparr>status = 401, json = Inr (Obj [(''error'', Str ''bad key'')])\<rparr> \<and>
   fst (invoke sample_constants sample_client unauthorized (Search ''q'' Undefined) []) =
     Inl (Error ''Request failed with status 401. bad key'') \<and>
   sublist ''401'' ''Request failed with status 401. bad key'' \<and>
   sublist ''bad key'' ''Request failed with status 401. bad key''"
proof -
  let ?req = "\<lparr>url = ''https://api.exa.ai/search'', http_method = ''POST'', req_headers = headers sample_client,
               body = Some (Obj [(''query'', Str ''q'')])\<rparr>"
  let ?resp = "\<lparr>status = 401, json = Inr (Obj [(''error'', Str ''bad key'')])\<rparr>"
  have 1: "snd (invoke sample_constants sample_client unauthorized (Search ''q'' Undefined) []) = [] @ [?req]"
    by (simp add: search_def snd_request spread_def sample_constants_def sample_client_def)
  have 2: "unauthorized ?req = Inr ?resp" by (simp add: unauthorized_def)
  have 3: "\<not> ok ?resp" by (simp add: ok_def)
  have 4: "json ?resp = Inr (Obj [(''error'', Str ''bad key'')])" by simp
  have 5: "js_get (Obj [(''error'', Str ''bad key'')]) ''error'' = Inr (Str ''bad key'')"
    by (simp add: js_get_def)
  have n: "string_of_nat 401 = ''401''" by (simp add: string_of_nat.simps digit_def)
  from request_error_message [OF 1 2 3 4 5] 3 show ?thesis by (simp add: n)
qed

text \<open>
  Claim C8. \<^verbatim>\<open>search\<close> issues one request, and when the response has a status in 200..299
  and its body parses as JSON, the call resolves to the parsed body itself, whatever it is.
  The instance below it is the body \<^verbatim>\<open>{"results":[{"title":"T","url":"u","id":"1"}]}\<close>.
\<close>

theorem search_returns_body:
  "\<exists>req. snd (search K c net query options log) = log @ [req] \<and>
     (\<forall>response j. net req = Inr response \<and> ok response \<and> json response = Inr j \<longrightarrow>
        fst (search K c net query options log) = Inr j)"
  unfolding search_def by (auto simp: snd_request request_ok)

theorem search_returns_body_witness:
  "fst (search sample_constants sample_client one_result ''q'' Undefined []) =
     Inr (Obj [(''results'',
            Arr [Obj [(''title'', Str ''T''), (''url'', Str ''u''), (''id'', Str ''1'')]])])"
  using search_returns_body [where K = sample_constants and c = sample_client and net = one_result
      and query = "''q''" and options = Undefined and log = "[]"]
  by (auto simp: one_result_def ok_def)

end
